theory Spec2Isabelle
  imports Complex_Main
begin

section \<open>Data model\<close>

text \<open>
  The program is the single class \<open>DeckBuilder\<close> of \<open>cccards.py\<close>. A card is
  a Python \<open>str\<close>, a deck is a Python list of cards, and the object holds the two
  decks \<open>front_cards\<close> and \<open>back_cards\<close>. A string is modelled as the list of its
  characters, each a code point below 256; strings with other code points cannot be
  written here and are outside the model.
\<close>

type_synonym card = string
type_synonym deck = "card list"

text \<open>One record of the input, as \<open>csv.reader\<close> yields it: the list of its fields.\<close>

type_synonym row = "string list"

record deck_builder =
  front_cards :: deck
  back_cards :: deck

text \<open>
  The exceptions, each named by its class. \<open>IndexError\<close>, \<open>ValueError\<close>,
  \<open>OverflowError\<close>, \<open>TypeError\<close>, \<open>OSError\<close>, \<open>UnicodeDecodeError\<close> and
  \<open>csv.Error\<close> are the exceptions that the statements of the program and the library
  functions they call can raise. \<open>ParseError\<close> and \<open>EmptyDeckError\<close> are the
  error kinds that the specification names; the program defines no class of either name
  and no equation below produces them.
\<close>

datatype py_error =
  IndexError | ValueError | OverflowError | TypeError | OSError | UnicodeDecodeError
  | CsvError | ParseError | EmptyDeckError

text \<open>
  The files. \<open>load_csv\<close> opens the file and iterates over
  \<open>csv.reader(f, delimiter=delim)\<close>; both belong to the Python library. The reader
  is lazy: it yields one record after the other, and it may fail in the middle of the file,
  when the bytes read are not UTF-8 (\<open>UnicodeDecodeError\<close>), when the parser gives up
  (\<open>csv.Error\<close>, for instance on a field over the size limit) or when the system cannot
  read on (\<open>OSError\<close>). A \<open>csv_reading\<close> is what one iteration over a reader
  gives: the records yielded, in order, and then either the end of the file
  (\<open>None\<close>) or the failure that stops the iteration.
\<close>

datatype read_failure = DecodeFailure | CsvFailure | IOFailure

fun read_error :: "read_failure \<Rightarrow> py_error" where
  "read_error DecodeFailure = UnicodeDecodeError"
| "read_error CsvFailure = CsvError"
| "read_error IOFailure = OSError"

type_synonym csv_reading = "row list \<times> read_failure option"

text \<open>
  A \<open>csv_source\<close> is the file system: for a file name, \<open>None\<close> when
  \<open>open\<close> fails, and otherwise the reading of the file for each delimiter.
\<close>

type_synonym csv_source = "string \<Rightarrow> (string \<Rightarrow> csv_reading) option"

section \<open>Built-in operations of Python\<close>

text \<open>\<open>row[i]\<close> for a non-negative index: an index out of range raises.\<close>

definition index :: "'a list \<Rightarrow> nat \<Rightarrow> py_error + 'a" where
  "index xs i = (if i < length xs then Inr (xs ! i) else Inl IndexError)"

text \<open>
  \<open>[x] * n\<close>, on a 64-bit interpreter. The count is first converted to an index-sized
  integer, which raises \<open>OverflowError\<close> outside \<open>-2^63 .. 2^63 - 1\<close>; then
  the list is empty when \<open>n\<close> is zero or negative. A negative count needs no memory,
  so its overflow is modelled. For a positive count the list is returned whatever its
  length: lists are unbounded here, and neither the limits of the machine's memory
  (\<open>MemoryError\<close>) nor the overflow of a count from \<open>2^63\<close> on, which only
  concerns lists that no machine holds, are modelled.
\<close>

definition MIN_SSIZE :: int where
  "MIN_SSIZE = - (2 ^ 63)"

definition repeat :: "'a \<Rightarrow> int \<Rightarrow> py_error + 'a list" where
  "repeat x n =
     (if n < MIN_SSIZE then Inl OverflowError
      else if n \<le> 0 then Inr []
      else Inr (replicate (nat n) x))"

text \<open>
  \<open>int(s)\<close> in base 10, on a string of code points below 256. The white space of
  this range is the ASCII white space, U+0085 and U+00A0, and its decimal digits are
  the ASCII digits. White space around the
  literal is skipped, one sign is allowed, then at least one digit follows, where single
  underscores may stand between digits, and at most 4300 digits are accepted (the
  interpreter's default limit, which the program does not change). Everything else
  raises \<open>ValueError\<close>, which is the result \<open>None\<close> here.
\<close>

definition MAX_STR_DIGITS :: nat where
  "MAX_STR_DIGITS = 4300"

definition is_space :: "char \<Rightarrow> bool" where
  "is_space c =
     (c \<in> {CHR '' '', CHR 0x09, CHR 0x0A, CHR 0x0B, CHR 0x0C, CHR 0x0D, CHR 0x85, CHR 0xA0})"

definition is_digit :: "char \<Rightarrow> bool" where
  "is_digit c = (48 \<le> (of_char c :: nat) \<and> (of_char c :: nat) \<le> 57)"

definition digit_value :: "char \<Rightarrow> nat" where
  "digit_value c = of_char c - 48"

text \<open>
  The scan over the digits and underscores, with the previous character as the
  interpreter keeps it (\<open>None\<close> at the start) and the number of digits seen: it
  returns the value read, the number of its digits and the rest of the string, and fails
  on a doubled or trailing underscore.
\<close>

fun scan_digits ::
  "char option \<Rightarrow> nat \<Rightarrow> nat \<Rightarrow> string \<Rightarrow> (nat \<times> nat \<times> string) option" where
  "scan_digits prev digits acc [] =
     (if prev = Some CHR ''_'' then None else Some (acc, digits, []))"
| "scan_digits prev digits acc (c # cs) =
     (if c = CHR ''_'' then
        (if prev = Some CHR ''_'' then None else scan_digits (Some c) digits acc cs)
      else if is_digit c then
        scan_digits (Some c) (digits + 1) (10 * acc + digit_value c) cs
      else if prev = Some CHR ''_'' then None
      else Some (acc, digits, c # cs))"

definition strip_sign :: "string \<Rightarrow> bool \<times> string" where
  "strip_sign s =
     (case s of
        [] \<Rightarrow> (False, [])
      | c # cs \<Rightarrow>
          if c = CHR ''+'' then (False, cs)
          else if c = CHR ''-'' then (True, cs)
          else (False, s))"

definition py_int :: "string \<Rightarrow> int option" where
  "py_int s =
     (let (neg, body) = strip_sign (dropWhile is_space s) in
      case body of
        [] \<Rightarrow> None
      | c # cs \<Rightarrow>
          if \<not> is_digit c then None
          else (case scan_digits None 0 0 body of
                  None \<Rightarrow> None
                | Some (v, digits, rest) \<Rightarrow>
                    if digits > MAX_STR_DIGITS then None
                    else if dropWhile is_space rest = [] then
                      Some (if neg then - int v else int v)
                    else None))"

section \<open>Loading a deck\<close>

text \<open>
  The statements \<open>open(filename, 'r', encoding='utf-8')\<close> and
  \<open>csv.reader(f, delimiter=delim)\<close>: \<open>open\<close> raises \<open>OSError\<close> when the
  file cannot be opened, and then \<open>csv.reader\<close> raises \<open>TypeError\<close> unless the
  delimiter is a string of one character.
\<close>

definition open_reader :: "csv_source \<Rightarrow> string \<Rightarrow> string \<Rightarrow> py_error + csv_reading" where
  "open_reader src filename delim =
     (case src filename of
        None \<Rightarrow> Inl OSError
      | Some reading \<Rightarrow>
          if length delim \<noteq> 1 then Inl TypeError else Inr (reading delim))"

text \<open>
  The body of the loop of \<open>load_csv\<close>: \<open>[row[0]] * int(row[1])\<close>. The operand
  \<open>row[0]\<close> is evaluated first, then \<open>row[1]\<close>, then \<open>int\<close>, then the
  repetition.
\<close>

definition row_cards :: "row \<Rightarrow> py_error + deck" where
  "row_cards r =
     (case index r 0 of
        Inl e \<Rightarrow> Inl e
      | Inr text \<Rightarrow>
          (case index r 1 of
             Inl e \<Rightarrow> Inl e
           | Inr w \<Rightarrow>
               (case py_int w of
                  None \<Rightarrow> Inl ValueError
                | Some n \<Rightarrow> repeat text n)))"

text \<open>
  The loop \<open>for row in data: cards += ...\<close>, with \<open>cards\<close> as accumulator. The
  records are taken one at a time, so the loop raises at the first record whose body
  raises, and the failure of the reader, if there is one, comes after the records that
  the reader has yielded.
\<close>

fun load_rows :: "deck \<Rightarrow> row list \<Rightarrow> read_failure option \<Rightarrow> py_error + deck" where
  "load_rows cards [] fin = (case fin of None \<Rightarrow> Inr cards | Some f \<Rightarrow> Inl (read_error f))"
| "load_rows cards (r # rs) fin =
     (case row_cards r of
        Inl e \<Rightarrow> Inl e
      | Inr cs \<Rightarrow> load_rows (cards @ cs) rs fin)"

definition load_csv :: "csv_source \<Rightarrow> string \<Rightarrow> string \<Rightarrow> py_error + deck" where
  "load_csv src filename delim =
     (case open_reader src filename delim of
        Inl e \<Rightarrow> Inl e
      | Inr (data, fin) \<Rightarrow> load_rows [] data fin)"

section \<open>The random generator\<close>

text \<open>
  The program draws from the process-wide generator of the module \<open>random\<close>. The
  generator is modelled as the sequence of its future raw draws, an arbitrary function
  on the natural numbers; \<open>randbelow g n\<close> reduces the next draw into \<open>{0..<n}\<close>
  and returns the generator advanced by one draw.
\<close>

type_synonym rng = "nat \<Rightarrow> nat"

definition randbelow :: "rng \<Rightarrow> nat \<Rightarrow> nat \<times> rng" where
  "randbelow g n = (g 0 mod n, \<lambda>i. g (Suc i))"

text \<open>
  \<open>random.choice(seq)\<close>: raises \<open>IndexError\<close> on an empty sequence, and returns
  \<open>seq[randbelow(len(seq))]\<close> otherwise.
\<close>

definition choice :: "rng \<Rightarrow> 'a list \<Rightarrow> py_error + ('a \<times> rng)" where
  "choice g seq =
     (if length seq = 0 then Inl IndexError
      else (let (i, g') = randbelow g (length seq) in Inr (seq ! i, g')))"

text \<open>
  \<open>random.shuffle(x)\<close>: for \<open>i\<close> from \<open>len(x) - 1\<close> down to 1, draw
  \<open>j = randbelow(i + 1)\<close> and exchange \<open>x[i]\<close> and \<open>x[j]\<close>.
\<close>

fun shuffle_from :: "nat \<Rightarrow> rng \<Rightarrow> 'a list \<Rightarrow> 'a list \<times> rng" where
  "shuffle_from 0 g x = (x, g)"
| "shuffle_from (Suc k) g x =
     (let (j, g') = randbelow g (Suc k + 1)
      in shuffle_from k g' (x[Suc k := x ! j, j := x ! Suc k]))"

definition random_shuffle :: "rng \<Rightarrow> 'a list \<Rightarrow> 'a list \<times> rng" where
  "random_shuffle g x = shuffle_from (length x - 1) g x"

section \<open>Balancing and shuffling\<close>

text \<open>
  The first loop of \<open>balance\<close>:
  \<open>while len(front) > len(back): back.append(random.choice(back))\<close>.
\<close>

function balance_back :: "rng \<Rightarrow> deck_builder \<Rightarrow> py_error + (deck_builder \<times> rng)" where
  "balance_back g s =
     (if length (front_cards s) > length (back_cards s) then
        (case choice g (back_cards s) of
           Inl e \<Rightarrow> Inl e
         | Inr (c, g') \<Rightarrow> balance_back g' (s\<lparr>back_cards := back_cards s @ [c]\<rparr>))
      else Inr (s, g))"
  by pat_completeness auto
termination
  by (relation "measure (\<lambda>(g, s). length (front_cards s) - length (back_cards s))") auto

text \<open>
  The second loop:
  \<open>while len(back) > len(front): front.append(random.choice(front))\<close>.
\<close>

function balance_front :: "rng \<Rightarrow> deck_builder \<Rightarrow> py_error + (deck_builder \<times> rng)" where
  "balance_front g s =
     (if length (back_cards s) > length (front_cards s) then
        (case choice g (front_cards s) of
           Inl e \<Rightarrow> Inl e
         | Inr (c, g') \<Rightarrow> balance_front g' (s\<lparr>front_cards := front_cards s @ [c]\<rparr>))
      else Inr (s, g))"
  by pat_completeness auto
termination
  by (relation "measure (\<lambda>(g, s). length (back_cards s) - length (front_cards s))") auto

text \<open>The two loops are unfolded by hand in the proofs, one iteration at a time.\<close>

declare balance_back.simps [simp del] balance_front.simps [simp del]

definition balance :: "rng \<Rightarrow> deck_builder \<Rightarrow> py_error + (deck_builder \<times> rng)" where
  "balance g s =
     (case balance_back g s of
        Inl e \<Rightarrow> Inl e
      | Inr (s', g') \<Rightarrow> balance_front g' s')"

text \<open>\<open>shuffle\<close>: the front deck first, then the back deck.\<close>

definition shuffle :: "rng \<Rightarrow> deck_builder \<Rightarrow> deck_builder \<times> rng" where
  "shuffle g s =
     (let (f, g') = random_shuffle g (front_cards s);
          (b, g'') = random_shuffle g' (back_cards s)
      in (s\<lparr>front_cards := f, back_cards := b\<rparr>, g''))"

section \<open>Construction\<close>

text \<open>
  \<open>__init__\<close>. The argument \<open>back_csv\<close> is \<open>None\<close> or a string, and the test
  \<open>if back_csv\<close> holds for a non-empty string only. The markers are appended to the
  back deck inside the branch (line 58) and to the front deck after it (line 61). The
  result is the object built and the generator as the construction leaves it.
\<close>

definition truthy :: "string option \<Rightarrow> bool" where
  "truthy b = (case b of None \<Rightarrow> False | Some name \<Rightarrow> name \<noteq> [])"

definition init ::
  "csv_source \<Rightarrow> rng \<Rightarrow> string \<Rightarrow> string option \<Rightarrow> int \<Rightarrow> string
     \<Rightarrow> py_error + (deck_builder \<times> rng)" where
  "init src g front_csv back_csv wildcards delimiter =
     (case load_csv src front_csv delimiter of
        Inl e \<Rightarrow> Inl e
      | Inr front \<Rightarrow>
          (case (if truthy back_csv then
                   (case load_csv src (the back_csv) delimiter of
                      Inl e \<Rightarrow> Inl e
                    | Inr back \<Rightarrow>
                        (case balance g \<lparr>front_cards = front, back_cards = back\<rparr> of
                           Inl e \<Rightarrow> Inl e
                         | Inr (s1, g1) \<Rightarrow>
                             (let (s2, g2) = shuffle g1 s1
                              in case repeat ''*'' wildcards of
                                   Inl e \<Rightarrow> Inl e
                                 | Inr markers \<Rightarrow>
                                     Inr (s2\<lparr>back_cards := back_cards s2 @ markers\<rparr>, g2))))
                 else Inr (\<lparr>front_cards = front, back_cards = []\<rparr>, g)) of
             Inl e \<Rightarrow> Inl e
           | Inr (s3, g3) \<Rightarrow>
               (case repeat ''*'' wildcards of
                  Inl e \<Rightarrow> Inl e
                | Inr markers \<Rightarrow> Inr (s3\<lparr>front_cards := front_cards s3 @ markers\<rparr>, g3))))"

section \<open>Rendering\<close>

text \<open>
  The PDF library is not part of the program. The document is modelled as the trace of
  the calls that \<open>save\<close> makes on the \<open>FPDF\<close> object, in order:
  \<open>add_page()\<close>, \<open>ln(h)\<close>, \<open>set_font('helvetica', style='B', size=n)\<close>,
  \<open>set_x(x)\<close> and \<open>cell(w, None, text, align=Align.C)\<close>.
\<close>

datatype pdf_op = AddPage | Ln int | SetFont nat | SetX int | Cell int string

type_synonym pdf = "pdf_op list"

definition CARDS_PER_PAGE :: nat where
  "CARDS_PER_PAGE = 28"

definition CARD_WIDTH :: int where
  "CARD_WIDTH = 48"

definition CARD_HEIGHT :: int where
  "CARD_HEIGHT = 40"

text \<open>The slice \<open>side[page * CARDS_PER_PAGE:(page+1) * CARDS_PER_PAGE]\<close>.\<close>

definition page_slice :: "deck \<Rightarrow> nat \<Rightarrow> deck" where
  "page_slice side page =
     take ((page + 1) * CARDS_PER_PAGE - page * CARDS_PER_PAGE) (drop (page * CARDS_PER_PAGE) side)"

text \<open>
  The loop over the cards of one page, with the counters \<open>cell\<close> and
  \<open>card_in_row\<close> and the document as state. Both comparisons, \<open>card == '*'\<close>
  and \<open>side == self.back_cards\<close>, compare values.
\<close>

fun render_cards :: "deck_builder \<Rightarrow> deck \<Rightarrow> deck \<Rightarrow> nat \<Rightarrow> nat \<Rightarrow> pdf \<Rightarrow> pdf" where
  "render_cards s side [] cell card_in_row doc = doc"
| "render_cards s side (this_card # cards) cell card_in_row doc =
     (let doc1 = (if this_card = ''*'' then doc @ [SetFont 32] else doc @ [SetFont 14]);
          doc2 = (if side = back_cards s
                  then doc1 @ [SetX (- CARD_WIDTH * int card_in_row - 9)] else doc1);
          doc3 = doc2 @ [Cell CARD_WIDTH this_card];
          cell1 = cell + 1;
          card_in_row1 = card_in_row + 1
      in if cell1 mod 4 = 0
         then render_cards s side cards cell1 1 (doc3 @ [Ln CARD_HEIGHT])
         else render_cards s side cards cell1 card_in_row1 doc3)"

text \<open>
  The calls of one iteration of the loop of \<open>save\<close> below, for the given side and
  page, on an empty document: a new page, the top margin and the cards of the slice.
\<close>

definition page_ops :: "deck_builder \<Rightarrow> deck \<Rightarrow> nat \<Rightarrow> pdf" where
  "page_ops s side page = render_cards s side (page_slice side page) 0 1 [AddPage, Ln 10]"

text \<open>
  \<open>total_pages\<close>: the quotients are true divisions, read here over the reals (the
  floating-point quotient of a list length by 28 has the same ceiling for every list
  that fits in memory).
\<close>

definition total_pages :: "deck_builder \<Rightarrow> nat" where
  "total_pages s =
     nat \<lceil>max (real (length (front_cards s)) / real CARDS_PER_PAGE)
              (real (length (back_cards s)) / real CARDS_PER_PAGE)\<rceil>"

text \<open>
  The loop \<open>while page < total_pages\<close> of \<open>save\<close>. Nothing bounds the number of
  its iterations, so it is a partial function: \<open>None\<close> means that the loop does not
  return. The test \<open>self.back_cards and side == self.front_cards\<close> holds when the
  back deck is not empty and \<open>side\<close> has the contents of the front deck.
\<close>

partial_function (option) render_pages ::
  "deck_builder \<Rightarrow> nat \<Rightarrow> nat \<Rightarrow> deck \<Rightarrow> pdf \<Rightarrow> pdf option" where
  "render_pages s n_pages page side doc =
     (if page < n_pages then
        (let doc' = render_cards s side (page_slice side page) 0 1 (doc @ [AddPage, Ln 10])
         in if back_cards s \<noteq> [] \<and> side = front_cards s
            then render_pages s n_pages page (back_cards s) doc'
            else render_pages s n_pages (page + 1) (front_cards s) doc')
      else Some doc)"

text \<open>\<open>save\<close>, up to the call \<open>pdf.output(filename)\<close>: the document handed to it.\<close>

definition save :: "deck_builder \<Rightarrow> pdf option" where
  "save s = render_pages s (total_pages s) 0 (front_cards s) []"

text \<open>
  Reading a trace: the font size in force at each \<open>cell\<close> call, which is the size
  of the last \<open>set_font\<close> before it (\<open>None\<close> when there is none).
\<close>

fun cell_fonts :: "nat option \<Rightarrow> pdf \<Rightarrow> (string \<times> nat option) list" where
  "cell_fonts font [] = []"
| "cell_fonts font (SetFont n # ops) = cell_fonts (Some n) ops"
| "cell_fonts font (Cell w t # ops) = (t, font) # cell_fonts font ops"
| "cell_fonts font (AddPage # ops) = cell_fonts font ops"
| "cell_fonts font (Ln h # ops) = cell_fonts font ops"
| "cell_fonts font (SetX x # ops) = cell_fonts font ops"

section \<open>Loading: properties\<close>

text \<open>The repetition, by the sign and the size of the count.\<close>

lemma repeat_nonneg: "0 \<le> n \<Longrightarrow> repeat x n = Inr (replicate (nat n) x)"
  by (simp add: repeat_def MIN_SSIZE_def)

lemma repeat_negative: "MIN_SSIZE \<le> n \<Longrightarrow> n < 0 \<Longrightarrow> repeat x n = Inr []"
  by (simp add: repeat_def)

lemma repeat_overflow: "n < MIN_SSIZE \<Longrightarrow> repeat x n = Inl OverflowError"
  by (simp add: repeat_def)

lemma repeat_Inr: "repeat x n = Inr ms \<Longrightarrow> ms = replicate (nat n) x"
  by (auto simp: repeat_def split: if_splits)

text \<open>One pass of the loop body, as a single case distinction.\<close>

lemma row_cards_eq:
  "row_cards r =
     (if length r < 2 then Inl IndexError
      else case py_int (r ! 1) of None \<Rightarrow> Inl ValueError | Some n \<Rightarrow> repeat (r ! 0) n)"
  by (auto simp: row_cards_def index_def)

lemma row_cards_not_ParseError: "row_cards r \<noteq> Inl ParseError"
  by (simp add: row_cards_eq repeat_def split: option.splits)

lemma row_cards_malformed:
  "length r < 2 \<or> py_int (r ! 1) = None \<Longrightarrow> \<exists>e. row_cards r = Inl e"
  by (auto simp: row_cards_eq)

lemma row_cards_indexed:
  "2 \<le> length r \<Longrightarrow> py_int (r ! 1) = Some w \<Longrightarrow> - (2 ^ 63) \<le> w \<Longrightarrow>
     row_cards r = Inr (replicate (nat w) (r ! 0))"
  by (simp add: row_cards_eq repeat_def MIN_SSIZE_def)

lemma row_cards_Inr:
  "row_cards r = Inr cs \<Longrightarrow> 2 \<le> length r \<and> py_int (r ! 1) \<noteq> None"
  by (auto simp: row_cards_eq split: if_splits option.splits)

text \<open>The accumulator of the loop only grows at its end.\<close>

lemma load_rows_acc:
  "load_rows cards rs fin
     = (case load_rows [] rs fin of Inl e \<Rightarrow> Inl e | Inr cs \<Rightarrow> Inr (cards @ cs))"
proof (induction rs arbitrary: cards)
  case Nil
  show ?case by (simp split: option.splits)
next
  case (Cons r rs)
  show ?case
  proof (cases "row_cards r")
    case (Inl e)
    then show ?thesis by simp
  next
    case (Inr cs)
    have "load_rows (cards @ cs) rs fin =
            (case load_rows [] rs fin of Inl e \<Rightarrow> Inl e | Inr ds \<Rightarrow> Inr ((cards @ cs) @ ds))"
      by (rule Cons.IH)
    moreover have "load_rows ([] @ cs) rs fin =
            (case load_rows [] rs fin of Inl e \<Rightarrow> Inl e | Inr ds \<Rightarrow> Inr (([] @ cs) @ ds))"
      by (rule Cons.IH)
    ultimately show ?thesis using Inr by (simp split: sum.splits)
  qed
qed

text \<open>
  When the body raises on no record, the loop concatenates the repetitions, and then
  returns at the end of the file or raises the failure of the reader.
\<close>

lemma load_rows_all:
  "list_all2 (\<lambda>r cs. row_cards r = Inr cs) data css \<Longrightarrow>
     load_rows [] data fin
       = (case fin of None \<Rightarrow> Inr (concat css) | Some f \<Rightarrow> Inl (read_error f))"
proof (induction rule: list_all2_induct)
  case Nil
  show ?case by (simp split: option.splits)
next
  case (Cons r data cs css)
  then show ?case
    using load_rows_acc [of cs data fin] by (simp split: option.splits)
qed

text \<open>The loop raises what the body raises on the first record on which it raises.\<close>

lemma load_rows_first_error:
  "\<forall>p \<in> set pre. \<exists>cs. row_cards p = Inr cs \<Longrightarrow> row_cards r = Inl e \<Longrightarrow>
     load_rows cards (pre @ r # post) fin = Inl e"
  by (induction pre arbitrary: cards) auto

text \<open>
  The loop returns only if the reader reaches the end of the file and the body raises on
  no record.
\<close>

lemma load_rows_Inr:
  "load_rows cards data fin = Inr out \<Longrightarrow>
     fin = None \<and> (\<forall>r \<in> set data. \<exists>cs. row_cards r = Inr cs)"
  by (induction data arbitrary: cards) (auto split: option.splits sum.splits)

lemma load_rows_not_ParseError: "load_rows cards data fin \<noteq> Inl ParseError"
proof (induction data arbitrary: cards)
  case Nil
  show ?case by (cases fin; cases "the fin") simp_all
next
  case (Cons r data)
  then show ?case using row_cards_not_ParseError [of r] by (auto split: sum.splits)
qed



text \<open>
  Claim C10 says that every record whose weight field reads as a negative integer raises
  no error and contributes no card. As stated it fails: the weight
  \<open>-9223372036854775809\<close>, which is \<open>-2^63 - 1\<close>, reads as a negative integer,
  and the repetition raises \<open>OverflowError\<close>.
\<close>

theorem load_csv_negative_weight_counterexample:
  "py_int ''-9223372036854775809'' = Some (- 9223372036854775809)
   \<and> load_csv (\<lambda>name. Some (\<lambda>d. ([[''A'', ''-9223372036854775809'']], None)))
         ''front.csv'' '','' = Inl OverflowError"
proof -
  have p: "py_int ''-9223372036854775809'' = Some (- 9223372036854775809)"
    by (simp add: py_int_def strip_sign_def is_space_def is_digit_def digit_value_def
          MAX_STR_DIGITS_def)
  then have "row_cards [''A'', ''-9223372036854775809''] = Inl OverflowError"
    by (simp add: row_cards_eq repeat_def MIN_SSIZE_def)
  with p show ?thesis by (simp add: load_csv_def open_reader_def)
qed

text \<open>
  Claim C10, amended. A record whose weight field reads as a negative integer not below
  \<open>-2^63\<close> raises no error and contributes no card: in a file read to its end
  whose weight fields all read as integers that fit an index-sized integer
  (\<open>-2^63 .. 2^63 - 1\<close>), of either sign, \<open>load_csv\<close> returns the deck in
  which a negative weight gives the empty repetition, and the length of the deck is the
  sum of the weights with each negative weight counted as zero.
\<close>

theorem load_csv_negative_weight:
  assumes "open_reader src filename delim = Inr (data, None)"
    and "list_all2 (\<lambda>r (t, w). 2 \<le> length r \<and> r ! 0 = t \<and> py_int (r ! 1) = Some w
                       \<and> - (2 ^ 63) \<le> w \<and> w < 2 ^ 63) data recs"
  shows "\<exists>cards. load_csv src filename delim = Inr cards
           \<and> cards = concat (map (\<lambda>(t, w). if w < 0 then [] else replicate (nat w) t) recs)
           \<and> int (length cards) = sum_list (map (\<lambda>(t, w). max 0 w) recs)"
proof -
  from assms(2)
  have "list_all2 (\<lambda>r cs. row_cards r = Inr cs) data
          (map (\<lambda>(t, w). if w < 0 then [] else replicate (nat w) t) recs)"
    by (induction rule: list_all2_induct) (auto simp: row_cards_eq repeat_def MIN_SSIZE_def)
  then have cards: "load_rows [] data None
      = Inr (concat (map (\<lambda>(t, w). if w < 0 then [] else replicate (nat w) t) recs))"
    by (simp add: load_rows_all)
  have len: "int (length (concat (map (\<lambda>(t, w). if w < 0 then [] else replicate (nat w) t) recs)))
               = sum_list (map (\<lambda>(t, w). max 0 w) recs)"
    by (induction recs) auto
  show ?thesis
    using assms(1) cards len by (simp add: load_csv_def)
qed

theorem load_csv_negative_weight_witness:
  "load_csv (\<lambda>name. if name = ''front.csv''
                      then Some (\<lambda>d. ([[''A'', ''2''], [''B'', ''-3''], [''C'', ''1'']], None))
                      else None)
      ''front.csv'' '','' = Inr [''A'', ''A'', ''C'']"
proof -
  let ?data = "[[''A'', ''2''], [''B'', ''-3''], [''C'', ''1'']]"
  let ?src = "\<lambda>name. if name = ''front.csv''
                then Some (\<lambda>d :: string. (?data, None :: read_failure option)) else None"
  have a: "open_reader ?src ''front.csv'' '','' = Inr (?data, None)"
    by (simp add: open_reader_def)
  have b: "list_all2 (\<lambda>r (t, w). 2 \<le> length r \<and> r ! 0 = t \<and> py_int (r ! 1) = Some w
                        \<and> - (2 ^ 63) \<le> w \<and> w < 2 ^ 63)
             ?data [(''A'', 2), (''B'', - 3), (''C'', 1)]"
    by (simp add: py_int_def strip_sign_def is_space_def is_digit_def digit_value_def
          MAX_STR_DIGITS_def)
  show ?thesis
    using load_csv_negative_weight [of ?src "''front.csv''" "'',''" ?data, OF a b]
    by (simp add: numeral_2_eq_2)
qed

text \<open>
  Claim C7, as the specification states it, fails: a record with a third field is
  loaded without error, a record with one field raises \<open>IndexError\<close> and a weight
  field that is no integer raises \<open>ValueError\<close>; none of them gives
  \<open>ParseError\<close>.
\<close>

theorem load_csv_parse_error_counterexample:
  "load_csv (\<lambda>name. Some (\<lambda>d. ([[''A'', ''1'', ''x'']], None))) ''f.csv'' '','' = Inr [''A'']
   \<and> load_csv (\<lambda>name. Some (\<lambda>d. ([[''A'']], None))) ''f.csv'' '','' = Inl IndexError
   \<and> load_csv (\<lambda>name. Some (\<lambda>d. ([[''A'', ''x'']], None))) ''f.csv'' '','' = Inl ValueError"
  by (simp add: load_csv_def open_reader_def row_cards_def index_def repeat_def MIN_SSIZE_def
        py_int_def strip_sign_def is_space_def is_digit_def digit_value_def MAX_STR_DIGITS_def)

text \<open>
  Claim C7, amended. Call a record malformed when it has fewer than two fields or a
  weight field that is no integer; a record with more than two fields is not. Then
  \<^item> \<open>load_csv\<close> fails with \<open>OSError\<close> when the file cannot be opened;
  \<^item> when the first malformed record has fewer than two fields, \<open>load_csv\<close>
    fails with \<open>IndexError\<close>, and when it has two fields and a weight field that is
    no integer, with \<open>ValueError\<close>; here the weights of the records before it fit
    an index-sized integer (\<open>-2^63 .. 2^63 - 1\<close>), since a weight outside raises
    \<open>OverflowError\<close> first;
  \<^item> \<open>load_csv\<close> fails for every file that contains a malformed record;
  \<^item> \<open>load_csv\<close> succeeds only if the file is read to its end and none of its
    records is malformed;
  \<^item> \<open>load_csv\<close> never fails with \<open>ParseError\<close>.
\<close>

theorem load_csv_failures:
  "(src filename = None \<longrightarrow> load_csv src filename delim = Inl OSError)
   \<and> (open_reader src filename delim = Inr (pre @ r # post, fin)
        \<and> (\<forall>p \<in> set pre. 2 \<le> length p
               \<and> (\<exists>w. py_int (p ! 1) = Some w \<and> - (2 ^ 63) \<le> w \<and> w < 2 ^ 63)) \<longrightarrow>
          (length r < 2 \<longrightarrow> load_csv src filename delim = Inl IndexError)
          \<and> (2 \<le> length r \<and> py_int (r ! 1) = None \<longrightarrow>
                load_csv src filename delim = Inl ValueError))
   \<and> (open_reader src filename delim = Inr (data, fin') \<and> r' \<in> set data
        \<and> (length r' < 2 \<or> py_int (r' ! 1) = None) \<longrightarrow>
          (\<exists>e. load_csv src filename delim = Inl e))
   \<and> (load_csv src filename delim = Inr cards \<longrightarrow>
          (\<exists>rows. open_reader src filename delim = Inr (rows, None)
             \<and> (\<forall>row \<in> set rows. 2 \<le> length row \<and> py_int (row ! 1) \<noteq> None)))
   \<and> load_csv src filename delim \<noteq> Inl ParseError"
proof (intro conjI impI)
  assume "src filename = None"
  then show "load_csv src filename delim = Inl OSError"
    by (simp add: load_csv_def open_reader_def)
next
  assume a: "open_reader src filename delim = Inr (pre @ r # post, fin)
               \<and> (\<forall>p \<in> set pre. 2 \<le> length p
                      \<and> (\<exists>w. py_int (p ! 1) = Some w \<and> - (2 ^ 63) \<le> w \<and> w < 2 ^ 63))"
    and "length r < 2"
  then have "row_cards r = Inl IndexError" by (simp add: row_cards_eq)
  moreover from a have "\<forall>p \<in> set pre. \<exists>cs. row_cards p = Inr cs"
    by (auto simp: row_cards_indexed)
  ultimately show "load_csv src filename delim = Inl IndexError"
    using a by (simp add: load_csv_def load_rows_first_error)
next
  assume a: "open_reader src filename delim = Inr (pre @ r # post, fin)
               \<and> (\<forall>p \<in> set pre. 2 \<le> length p
                      \<and> (\<exists>w. py_int (p ! 1) = Some w \<and> - (2 ^ 63) \<le> w \<and> w < 2 ^ 63))"
    and "2 \<le> length r \<and> py_int (r ! 1) = None"
  then have "row_cards r = Inl ValueError" by (simp add: row_cards_eq)
  moreover from a have "\<forall>p \<in> set pre. \<exists>cs. row_cards p = Inr cs"
    by (auto simp: row_cards_indexed)
  ultimately show "load_csv src filename delim = Inl ValueError"
    using a by (simp add: load_csv_def load_rows_first_error)
next
  assume a: "open_reader src filename delim = Inr (data, fin') \<and> r' \<in> set data
               \<and> (length r' < 2 \<or> py_int (r' ! 1) = None)"
  then obtain e where e: "row_cards r' = Inl e" using row_cards_malformed by blast
  show "\<exists>e. load_csv src filename delim = Inl e"
  proof (cases "load_csv src filename delim")
    case (Inl x)
    then show ?thesis by blast
  next
    case (Inr out)
    with a have "load_rows [] data fin' = Inr out" by (simp add: load_csv_def)
    from load_rows_Inr [OF this] a e show ?thesis by auto
  qed
next
  assume a: "load_csv src filename delim = Inr cards"
  then obtain rows fin where o: "open_reader src filename delim = Inr (rows, fin)"
    and l: "load_rows [] rows fin = Inr cards"
    by (auto simp: load_csv_def split: sum.splits)
  from load_rows_Inr [OF l] have "fin = None"
    and "\<forall>row \<in> set rows. 2 \<le> length row \<and> py_int (row ! 1) \<noteq> None"
    using row_cards_Inr by blast+
  with o show "\<exists>rows. open_reader src filename delim = Inr (rows, None)
             \<and> (\<forall>row \<in> set rows. 2 \<le> length row \<and> py_int (row ! 1) \<noteq> None)"
    by blast
next
  show "load_csv src filename delim \<noteq> Inl ParseError"
    using load_rows_not_ParseError
    by (auto simp: load_csv_def open_reader_def split: option.splits if_splits prod.splits)
qed

theorem load_csv_failures_witness:
  "load_csv (\<lambda>name. Some (\<lambda>d. ([[''A'', ''1''], [''B'']], None))) ''f.csv'' '','' = Inl IndexError
   \<and> load_csv (\<lambda>name. Some (\<lambda>d. ([[''A'', ''1''], [''B'', ''x'']], None))) ''f.csv'' '',''
       = Inl ValueError
   \<and> load_csv (\<lambda>name. None) ''f.csv'' '','' = Inl OSError"
proof -
  let ?one = "\<lambda>name :: string. Some (\<lambda>d :: string.
                ([[''A'', ''1''], [''B'']], None :: read_failure option))"
  let ?two = "\<lambda>name :: string. Some (\<lambda>d :: string.
                ([[''A'', ''1''], [''B'', ''x'']], None :: read_failure option))"
  let ?none = "\<lambda>name :: string. None :: (string \<Rightarrow> csv_reading) option"
  have good: "py_int ''1'' = Some 1"
    by (simp add: py_int_def strip_sign_def is_space_def is_digit_def digit_value_def
          MAX_STR_DIGITS_def)
  have bad: "py_int ''x'' = None"
    by (simp add: py_int_def strip_sign_def is_space_def is_digit_def)
  have one: "load_csv ?one ''f.csv'' '','' = Inl IndexError"
    using load_csv_failures [of ?one "''f.csv''" "'',''" "[[''A'', ''1'']]" "[''B'']" "[]" None]
    by (simp add: open_reader_def good)
  have two: "load_csv ?two ''f.csv'' '','' = Inl ValueError"
    using load_csv_failures [of ?two "''f.csv''" "'',''" "[[''A'', ''1'']]" "[''B'', ''x'']" "[]" None]
    by (simp add: open_reader_def good bad)
  have none: "load_csv ?none ''f.csv'' '','' = Inl OSError"
    using load_csv_failures [of ?none "''f.csv''" "'',''"] by simp
  from one two none show ?thesis by simp
qed

section \<open>Balancing: properties\<close>

text \<open>A choice from a non-empty deck succeeds and returns one of its entries.\<close>

lemma choice_nonempty:
  "seq \<noteq> [] \<Longrightarrow> \<exists>c g'. choice g seq = Inr (c, g') \<and> c \<in> set seq"
  by (simp add: choice_def randbelow_def)

text \<open>
  The first loop, started with a non-empty back deck, returns: it has appended entries
  of the back deck to it until the back deck is as long as the front deck, and has left
  the front deck alone.
\<close>

lemma balance_back_extends:
  "back_cards s \<noteq> [] \<Longrightarrow>
     \<exists>ext g'. balance_back g s = Inr (s\<lparr>back_cards := back_cards s @ ext\<rparr>, g')
       \<and> set ext \<subseteq> set (back_cards s)
       \<and> length (back_cards s @ ext) = max (length (front_cards s)) (length (back_cards s))"
proof (induction g s rule: balance_back.induct)
  case (1 g s)
  show ?case
  proof (cases "length (front_cards s) > length (back_cards s)")
    case False
    have "balance_back g s = Inr (s\<lparr>back_cards := back_cards s @ []\<rparr>, g)"
      using False by (subst balance_back.simps) simp
    then show ?thesis using False by (intro exI [of _ "[]"] exI [of _ g]) simp
  next
    case True
    from choice_nonempty [OF "1.prems"] obtain c g1
      where c: "choice g (back_cards s) = Inr (c, g1)" "c \<in> set (back_cards s)" by blast
    let ?s1 = "s\<lparr>back_cards := back_cards s @ [c]\<rparr>"
    have "back_cards ?s1 \<noteq> []" by simp
    from "1.IH" [OF True c(1) refl this] obtain ext g'
      where ih: "balance_back g1 ?s1 = Inr (?s1\<lparr>back_cards := back_cards ?s1 @ ext\<rparr>, g')"
        "set ext \<subseteq> set (back_cards ?s1)"
        "length (back_cards ?s1 @ ext) = max (length (front_cards ?s1)) (length (back_cards ?s1))"
      by blast
    have "balance_back g s = balance_back g1 ?s1"
      using True c(1) by (subst balance_back.simps) simp
    then have "balance_back g s = Inr (s\<lparr>back_cards := back_cards s @ (c # ext)\<rparr>, g')"
      using ih(1) by simp
    moreover have "set (c # ext) \<subseteq> set (back_cards s)" using ih(2) c(2) by auto
    moreover have "length (back_cards s @ (c # ext)) = max (length (front_cards s)) (length (back_cards s))"
      using ih(3) True by simp
    ultimately show ?thesis by blast
  qed
qed

text \<open>The same for the second loop and the front deck.\<close>

lemma balance_front_extends:
  "front_cards s \<noteq> [] \<Longrightarrow>
     \<exists>ext g'. balance_front g s = Inr (s\<lparr>front_cards := front_cards s @ ext\<rparr>, g')
       \<and> set ext \<subseteq> set (front_cards s)
       \<and> length (front_cards s @ ext) = max (length (front_cards s)) (length (back_cards s))"
proof (induction g s rule: balance_front.induct)
  case (1 g s)
  show ?case
  proof (cases "length (back_cards s) > length (front_cards s)")
    case False
    have "balance_front g s = Inr (s\<lparr>front_cards := front_cards s @ []\<rparr>, g)"
      using False by (subst balance_front.simps) simp
    then show ?thesis using False by (intro exI [of _ "[]"] exI [of _ g]) simp
  next
    case True
    from choice_nonempty [OF "1.prems"] obtain c g1
      where c: "choice g (front_cards s) = Inr (c, g1)" "c \<in> set (front_cards s)" by blast
    let ?s1 = "s\<lparr>front_cards := front_cards s @ [c]\<rparr>"
    have "front_cards ?s1 \<noteq> []" by simp
    from "1.IH" [OF True c(1) refl this] obtain ext g'
      where ih: "balance_front g1 ?s1 = Inr (?s1\<lparr>front_cards := front_cards ?s1 @ ext\<rparr>, g')"
        "set ext \<subseteq> set (front_cards ?s1)"
        "length (front_cards ?s1 @ ext) = max (length (front_cards ?s1)) (length (back_cards ?s1))"
      by blast
    have "balance_front g s = balance_front g1 ?s1"
      using True c(1) by (subst balance_front.simps) simp
    then have "balance_front g s = Inr (s\<lparr>front_cards := front_cards s @ (c # ext)\<rparr>, g')"
      using ih(1) by simp
    moreover have "set (c # ext) \<subseteq> set (front_cards s)" using ih(2) c(2) by auto
    moreover have "length (front_cards s @ (c # ext)) = max (length (front_cards s)) (length (back_cards s))"
      using ih(3) True by simp
    ultimately show ?thesis by blast
  qed
qed

text \<open>A loop whose deck is empty while the other is not fails at its first choice.\<close>

lemma balance_back_empty:
  "back_cards s = [] \<Longrightarrow> front_cards s \<noteq> [] \<Longrightarrow> balance_back g s = Inl IndexError"
  by (subst balance_back.simps) (simp add: choice_def)

lemma balance_front_empty:
  "front_cards s = [] \<Longrightarrow> back_cards s \<noteq> [] \<Longrightarrow> balance_front g s = Inl IndexError"
  by (subst balance_front.simps) (simp add: choice_def)

text \<open>A loop whose deck is not the shorter one does nothing.\<close>

lemma balance_back_done:
  "length (front_cards s) \<le> length (back_cards s) \<Longrightarrow> balance_back g s = Inr (s, g)"
  by (subst balance_back.simps) simp

lemma balance_front_done:
  "length (back_cards s) \<le> length (front_cards s) \<Longrightarrow> balance_front g s = Inr (s, g)"
  by (subst balance_front.simps) simp

text \<open>
  Claim C2. For non-empty front and back decks \<open>balance\<close> returns, whatever the
  generator draws; afterwards the two decks have the same length, a deck that was not
  the shorter one is unchanged, and the shorter deck is its old contents followed by
  entries that all occur in it.
\<close>

theorem balance_equalises:
  assumes "front_cards s \<noteq> []" and "back_cards s \<noteq> []"
  shows "\<exists>s' g'. balance g s = Inr (s', g')
           \<and> length (front_cards s') = length (back_cards s')
           \<and> (length (back_cards s) \<le> length (front_cards s) \<longrightarrow>
                front_cards s' = front_cards s
                \<and> (\<exists>ext. back_cards s' = back_cards s @ ext \<and> set ext \<subseteq> set (back_cards s)))
           \<and> (length (front_cards s) \<le> length (back_cards s) \<longrightarrow>
                back_cards s' = back_cards s
                \<and> (\<exists>ext. front_cards s' = front_cards s @ ext \<and> set ext \<subseteq> set (front_cards s)))"
proof (cases "length (back_cards s) \<le> length (front_cards s)")
  case True
  from balance_back_extends [OF assms(2)] obtain ext g1
    where b: "balance_back g s = Inr (s\<lparr>back_cards := back_cards s @ ext\<rparr>, g1)"
      "set ext \<subseteq> set (back_cards s)"
      "length (back_cards s @ ext) = max (length (front_cards s)) (length (back_cards s))"
    by blast
  let ?s1 = "s\<lparr>back_cards := back_cards s @ ext\<rparr>"
  have len: "length (back_cards ?s1) = length (front_cards ?s1)" using b(3) True by simp
  then have "balance_front g1 ?s1 = Inr (?s1, g1)" by (intro balance_front_done) simp
  then have res: "balance g s = Inr (?s1, g1)" using b(1) by (simp add: balance_def)
  have "ext = []" if "length (front_cards s) \<le> length (back_cards s)"
    using that b(3) by simp
  then show ?thesis using res len b(2) by (intro exI [of _ ?s1] exI [of _ g1]) auto
next
  case False
  then have "balance_back g s = Inr (s, g)" by (intro balance_back_done) simp
  moreover
  from balance_front_extends [OF assms(1)] obtain ext g1
    where f: "balance_front g s = Inr (s\<lparr>front_cards := front_cards s @ ext\<rparr>, g1)"
      "set ext \<subseteq> set (front_cards s)"
      "length (front_cards s @ ext) = max (length (front_cards s)) (length (back_cards s))"
    by blast
  let ?s1 = "s\<lparr>front_cards := front_cards s @ ext\<rparr>"
  from calculation f(1) have res: "balance g s = Inr (?s1, g1)" by (simp add: balance_def)
  have len: "length (front_cards ?s1) = length (back_cards ?s1)" using f(3) False by simp
  show ?thesis using res len f(2) False by (intro exI [of _ ?s1] exI [of _ g1]) auto
qed

theorem balance_equalises_witness:
  "map_sum id fst (balance (\<lambda>i. i) \<lparr>front_cards = [''a'', ''b'', ''c''], back_cards = [''x'', ''y'']\<rparr>)
     = Inr \<lparr>front_cards = [''a'', ''b'', ''c''], back_cards = [''x'', ''y'', ''x'']\<rparr>"
  using balance_equalises [of "\<lparr>front_cards = [''a'', ''b'', ''c''], back_cards = [''x'', ''y'']\<rparr>" "\<lambda>i. i"]
  by (simp add: balance_def balance_back.simps balance_front.simps choice_def randbelow_def)

text \<open>
  Claim C6, as the specification states it, fails: with an empty back deck and a
  non-empty front deck, the exception of \<open>balance\<close> is not \<open>EmptyDeckError\<close>.
\<close>

theorem balance_empty_deck_counterexample:
  "balance (\<lambda>i. 0) \<lparr>front_cards = [''a''], back_cards = []\<rparr> \<noteq> Inl EmptyDeckError"
  by (simp add: balance_def balance_back.simps choice_def)

text \<open>
  Claim C6, amended. When one deck is empty and the other is not, \<open>balance\<close> fails
  with \<open>IndexError\<close>, the exception of \<open>random.choice\<close> on an empty sequence;
  it neither loops nor returns.
\<close>

theorem balance_empty_deck:
  assumes "(front_cards s = [] \<and> back_cards s \<noteq> []) \<or> (front_cards s \<noteq> [] \<and> back_cards s = [])"
  shows "balance g s = Inl IndexError"
proof (cases "front_cards s = []")
  case True
  with assms have "back_cards s \<noteq> []" by blast
  with True have "balance_back g s = Inr (s, g)" "balance_front g s = Inl IndexError"
    by (simp_all add: balance_back_done balance_front_empty)
  then show ?thesis by (simp add: balance_def)
next
  case False
  with assms have "back_cards s = []" by blast
  with False have "balance_back g s = Inl IndexError"
    by (simp add: balance_back_empty)
  then show ?thesis by (simp add: balance_def)
qed

theorem balance_empty_deck_witness:
  "balance (\<lambda>i. 0) \<lparr>front_cards = [''a''], back_cards = []\<rparr> = Inl IndexError
   \<and> balance (\<lambda>i. 0) \<lparr>front_cards = [], back_cards = [''x'']\<rparr> = Inl IndexError"
  using balance_empty_deck [of "\<lparr>front_cards = [''a''], back_cards = []\<rparr>" "\<lambda>i. 0"]
    balance_empty_deck [of "\<lparr>front_cards = [], back_cards = [''x'']\<rparr>" "\<lambda>i. 0"]
  by simp

section \<open>Construction: properties\<close>







text \<open>
  Claim C9. Without a back file the construction neither balances nor shuffles: the
  generator is returned as it was given, and the front deck is the deck that
  \<open>load_csv\<close> returned, in its order, followed by the wildcard markers, that is by
  the list that the repetition \<open>["*"] * wildcards\<close> gives (the construction raises
  only if that repetition does). For the file with the records \<open>A,2\<close> and
  \<open>B,1\<close> and one wildcard, the deck is \<open>A, A, B, *\<close>, of length 4.
\<close>

theorem init_without_back:
  assumes "\<not> truthy back_csv"
    and "load_csv src front_csv delim = Inr f"
  shows "init src g front_csv back_csv n delim =
           (case repeat ''*'' n of
              Inl e \<Rightarrow> Inl e
            | Inr markers \<Rightarrow> Inr (\<lparr>front_cards = f @ markers, back_cards = []\<rparr>, g))"
  using assms by (simp add: init_def split: sum.splits)

theorem init_without_back_witness:
  "init (\<lambda>name. if name = ''f.csv'' then Some (\<lambda>d. ([[''A'', ''2''], [''B'', ''1'']], None))
                  else None)
      (\<lambda>i. i) ''f.csv'' None 1 '',''
     = Inr (\<lparr>front_cards = [''A'', ''A'', ''B'', ''*''], back_cards = []\<rparr>, \<lambda>i. i)
   \<and> length [''A'', ''A'', ''B'', ''*''] = 4"
proof -
  let ?src = "\<lambda>name :: string.
                if name = ''f.csv''
                then Some (\<lambda>d :: string. ([[''A'', ''2''], [''B'', ''1'']], None :: read_failure option))
                else None"
  have t: "\<not> truthy None" by (simp add: truthy_def)
  have f: "load_csv ?src ''f.csv'' '','' = Inr [''A'', ''A'', ''B'']"
    by (simp add: load_csv_def open_reader_def row_cards_def index_def repeat_def
          MIN_SSIZE_def numeral_2_eq_2 py_int_def strip_sign_def is_space_def is_digit_def
          digit_value_def MAX_STR_DIGITS_def)
  from init_without_back [where src = ?src and front_csv = "''f.csv''" and delim = "'',''"
      and g = "\<lambda>i. i" and n = 1, OF t f]
  show ?thesis by (simp add: repeat_def MIN_SSIZE_def)
qed

section \<open>Rendering: properties\<close>

text \<open>The loop over the cards only appends to the document.\<close>

lemma render_cards_append:
  "render_cards s side cards cell card_in_row (doc @ doc')
     = doc @ render_cards s side cards cell card_in_row doc'"
  by (induction cards arbitrary: side cell card_in_row doc') (simp_all add: Let_def)

lemma render_cards_doc:
  "render_cards s side cards cell card_in_row doc
     = doc @ render_cards s side cards cell card_in_row []"
  using render_cards_append [of s side cards cell card_in_row doc "[]"] by simp

lemma render_cards_Cons:
  "render_cards s side cards cell card_in_row (x # doc)
     = x # render_cards s side cards cell card_in_row doc"
  using render_cards_append [of s side cards cell card_in_row "[x]" doc] by simp

text \<open>
  Every \<open>cell\<close> call of the loop over the cards follows a \<open>set_font\<close> call of
  the same iteration, whose size depends on the text of the card alone.
\<close>

lemma cell_fonts_render_cards:
  "cell_fonts font (render_cards s side cards cell card_in_row [])
     = map (\<lambda>c. (c, Some (if c = ''*'' then 32 else 14))) cards"
  by (induction cards arbitrary: side font cell card_in_row)
     (simp_all add: Let_def render_cards_Cons)

text \<open>
  The page count in integer arithmetic, and as the ceiling of the longer length over 28.
\<close>

lemma total_pages_eq:
  "total_pages s = (max (length (front_cards s)) (length (back_cards s)) + 27) div 28"
  by (simp add: total_pages_def CARDS_PER_PAGE_def) linarith

lemma total_pages_ceiling:
  "int (total_pages s)
     = \<lceil>real (max (length (front_cards s)) (length (back_cards s))) / 28\<rceil>"
  by (simp add: total_pages_def CARDS_PER_PAGE_def) linarith

lemma total_pages_pos: "front_cards s \<noteq> [] \<Longrightarrow> 0 < total_pages s"
  by (cases "front_cards s") (simp_all add: total_pages_eq)

text \<open>One iteration of the loop of \<open>save\<close>, and its exit.\<close>

lemma render_pages_step:
  "page < n \<Longrightarrow>
   render_pages s n page side doc =
     (if back_cards s \<noteq> [] \<and> side = front_cards s
      then render_pages s n page (back_cards s) (doc @ page_ops s side page)
      else render_pages s n (page + 1) (front_cards s) (doc @ page_ops s side page))"
  by (subst render_pages.simps)
     (simp add: Let_def page_ops_def render_cards_doc [of _ _ _ _ _ "_ @ _"]
        render_cards_Cons)

lemma render_pages_stop: "\<not> page < n \<Longrightarrow> render_pages s n page side doc = Some doc"
  by (subst render_pages.simps) simp

text \<open>
  With an empty back deck the loop returns, after one page of the front deck for each
  page index.
\<close>

lemma render_pages_front_only:
  assumes "back_cards s = []"
  shows "page \<le> n \<Longrightarrow>
         render_pages s n page (front_cards s) doc
           = Some (doc @ concat (map (page_ops s (front_cards s)) [page..<n]))"
proof (induction "n - page" arbitrary: page doc)
  case 0
  then show ?case by (simp add: render_pages_stop)
next
  case (Suc k)
  then have lt: "page < n" and k: "k = n - (page + 1)" and le: "page + 1 \<le> n" by simp_all
  have "render_pages s n page (front_cards s) doc
          = render_pages s n (page + 1) (front_cards s) (doc @ page_ops s (front_cards s) page)"
    using assms by (simp add: render_pages_step [OF lt])
  also have "\<dots> = Some ((doc @ page_ops s (front_cards s) page)
                      @ concat (map (page_ops s (front_cards s)) [page + 1..<n]))"
    by (rule Suc.hyps(1) [OF k le])
  finally show ?case using lt by (simp add: upt_conv_Cons)
qed

text \<open>
  With a non-empty back deck whose contents differ from those of the front deck the loop
  returns, after the front page and then the back page for each page index.
\<close>

lemma render_pages_both_sides:
  assumes "back_cards s \<noteq> []" and "front_cards s \<noteq> back_cards s"
  shows "page \<le> n \<Longrightarrow>
         render_pages s n page (front_cards s) doc
           = Some (doc @ concat (map (\<lambda>p. page_ops s (front_cards s) p
                                            @ page_ops s (back_cards s) p) [page..<n]))"
proof (induction "n - page" arbitrary: page doc)
  case 0
  then show ?case by (simp add: render_pages_stop)
next
  case (Suc k)
  then have lt: "page < n" and k: "k = n - (page + 1)" and le: "page + 1 \<le> n" by simp_all
  have "render_pages s n page (front_cards s) doc
          = render_pages s n page (back_cards s) (doc @ page_ops s (front_cards s) page)"
    using assms by (simp add: render_pages_step [OF lt])
  also have "\<dots> = render_pages s n (page + 1) (front_cards s)
                      ((doc @ page_ops s (front_cards s) page) @ page_ops s (back_cards s) page)"
    using assms by (simp add: render_pages_step [OF lt])
  also have "\<dots> = Some (((doc @ page_ops s (front_cards s) page) @ page_ops s (back_cards s) page)
                      @ concat (map (\<lambda>p. page_ops s (front_cards s) p
                                            @ page_ops s (back_cards s) p) [page + 1..<n]))"
    by (rule Suc.hyps(1) [OF k le])
  finally show ?case using lt by (simp add: upt_conv_Cons)
qed

text \<open>
  With a non-empty back deck whose contents equal those of the front deck, the test
  \<open>side == self.front_cards\<close> holds on the back side as well, so the page index is
  never increased: the loop does not return.
\<close>

lemma render_pages_returns_only_if:
  assumes "render_pages s n page side doc = Some y"
  shows "\<not> (back_cards s \<noteq> [] \<and> front_cards s = back_cards s
            \<and> side = front_cards s \<and> page < n)"
proof (rule render_pages.raw_induct [OF _ assms, where P = "\<lambda>s n page side doc y.
         \<not> (back_cards s \<noteq> [] \<and> front_cards s = back_cards s
              \<and> side = front_cards s \<and> page < n)"], goal_cases)
  case (1 f s n page side doc y)
  show ?case
  proof
    assume a: "back_cards s \<noteq> [] \<and> front_cards s = back_cards s
                 \<and> side = front_cards s \<and> page < n"
    with 1(2) obtain doc' where "f s n page (back_cards s) doc' = Some y"
      by (simp add: Let_def)
    from 1(1) [OF this] a show False by simp
  qed
qed

lemma render_pages_equal_decks:
  assumes "back_cards s \<noteq> []" and "front_cards s = back_cards s" and "page < n"
  shows "render_pages s n page (front_cards s) doc = None"
proof (cases "render_pages s n page (front_cards s) doc")
  case None
  then show ?thesis .
next
  case (Some y)
  from render_pages_returns_only_if [OF this] assms show ?thesis by simp
qed

text \<open>
  The document of \<open>save\<close> whenever the back deck is empty or differs in contents from
  the front deck: the pages of the two decks interleaved, front before back.
\<close>

lemma save_distinct_decks:
  assumes "back_cards s = [] \<or> front_cards s \<noteq> back_cards s"
  shows "save s = Some (concat (map (\<lambda>p. page_ops s (front_cards s) p
                 @ (if back_cards s \<noteq> [] then page_ops s (back_cards s) p else []))
               [0..<total_pages s]))"
proof (cases "back_cards s = []")
  case True
  then show ?thesis
    using render_pages_front_only [OF True, of 0 "total_pages s" "[]"] by (simp add: save_def)
next
  case False
  with assms have "front_cards s \<noteq> back_cards s" by simp
  from render_pages_both_sides [OF False this, of 0 "total_pages s" "[]"] False
  show ?thesis by (simp add: save_def)
qed

text \<open>The construction from two files that both hold the one record \<open>A,1\<close>.\<close>

lemma init_same_file:
  assumes "0 \<le> n"
  shows "map_sum id fst
           (init (\<lambda>name. Some (\<lambda>d. ([[''A'', ''1'']], None))) (\<lambda>i. 0) front_csv
              (Some ''back.csv'') n '','')
         = Inr \<lparr>front_cards = ''A'' # replicate (nat n) ''*'',
                back_cards = ''A'' # replicate (nat n) ''*''\<rparr>"
proof -
  have "load_csv (\<lambda>name. Some (\<lambda>d. ([[''A'', ''1'']], None))) name '','' = Inr [''A'']"
    for name
    by (simp add: load_csv_def open_reader_def row_cards_def index_def repeat_def
          MIN_SSIZE_def py_int_def strip_sign_def is_space_def is_digit_def digit_value_def
          MAX_STR_DIGITS_def)
  then show ?thesis
    using assms
    by (simp add: init_def truthy_def balance_def balance_back.simps balance_front.simps
          shuffle_def random_shuffle_def repeat_nonneg)
qed

text \<open>
  Claim C4 says that for every constructed pair of decks \<open>save\<close> produces the
  document with \<open>ceil(max(front length, back length) / 28)\<close> page indices, each giving
  the front page and then, when a back deck exists, the back page. This holds whenever
  the two decks differ in contents or the back deck is empty (\<open>save_distinct_decks\<close>
  and \<open>total_pages_ceiling\<close> above), and fails for the decks constructed from a front
  and a back file that both hold the record \<open>A,1\<close>, with no wildcard: the page count
  is 1, and \<open>save\<close> does not return, so there is no document.
\<close>

theorem save_same_cards_no_document:
  "map_sum id fst (init (\<lambda>name. Some (\<lambda>d. ([[''A'', ''1'']], None))) (\<lambda>i. 0) ''front.csv''
       (Some ''back.csv'') 0 '','')
     = Inr \<lparr>front_cards = [''A''], back_cards = [''A'']\<rparr>
   \<and> total_pages \<lparr>front_cards = [''A''], back_cards = [''A'']\<rparr> = 1
   \<and> save \<lparr>front_cards = [''A''], back_cards = [''A'']\<rparr> = None"
proof -
  let ?s = "\<lparr>front_cards = [''A''], back_cards = [''A'']\<rparr>"
  have t: "total_pages ?s = 1" by (simp add: total_pages_eq)
  have "render_pages ?s 1 0 (front_cards ?s) [] = None"
    by (rule render_pages_equal_decks) simp_all
  then have "save ?s = None" by (simp add: save_def t)
  with t init_same_file [of 0 "''front.csv''"] show ?thesis by simp
qed

text \<open>
  Claim C8 says that the loop of \<open>save\<close> terminates for every constructed pair of
  decks, also when the two decks have equal contents. The opposite holds: whenever the
  front and back decks have equal contents and are not empty, \<open>save\<close> does not
  return.
\<close>

theorem save_equal_decks_diverges:
  assumes "front_cards s = back_cards s" and "front_cards s \<noteq> []"
  shows "save s = None"
  unfolding save_def
  using assms by (intro render_pages_equal_decks total_pages_pos) simp_all

theorem save_equal_decks_diverges_witness:
  "map_sum id fst (init (\<lambda>name. Some (\<lambda>d. ([[''A'', ''1'']], None))) (\<lambda>i. 0) ''front.csv''
       (Some ''back.csv'') 1 '','')
     = Inr \<lparr>front_cards = [''A'', ''*''], back_cards = [''A'', ''*'']\<rparr>
   \<and> save \<lparr>front_cards = [''A'', ''*''], back_cards = [''A'', ''*'']\<rparr> = None"
  using save_equal_decks_diverges [of "\<lparr>front_cards = [''A'', ''*''], back_cards = [''A'', ''*'']\<rparr>"]
    init_same_file [of 1 "''front.csv''"]
  by simp

text \<open>
  Claim C5, as the specification states it, fails: a file with the record \<open>*,1\<close>
  and no wildcard requested gives a deck whose only card was loaded from the file, and
  this card is rendered in size 32, the size of the wildcards.
\<close>

theorem wildcard_font_counterexample:
  "init (\<lambda>name. Some (\<lambda>d. ([[''*'', ''1'']], None))) (\<lambda>i. i) ''front.csv'' None 0 '',''
     = Inr (\<lparr>front_cards = [''*''], back_cards = []\<rparr>, \<lambda>i. i)
   \<and> map_option (cell_fonts None) (save \<lparr>front_cards = [''*''], back_cards = []\<rparr>)
       = Some [(''*'', Some 32)]"
proof -
  let ?s = "\<lparr>front_cards = [''*''], back_cards = []\<rparr>"
  have i: "init (\<lambda>name. Some (\<lambda>d. ([[''*'', ''1'']], None))) (\<lambda>i. i) ''front.csv'' None 0 '',''
             = Inr (?s, \<lambda>i. i)"
    by (simp add: init_def truthy_def load_csv_def open_reader_def row_cards_def index_def
          repeat_def MIN_SSIZE_def py_int_def strip_sign_def is_space_def is_digit_def
          digit_value_def MAX_STR_DIGITS_def)
  have "save ?s = Some (page_ops ?s [''*''] 0)"
    using save_distinct_decks [of ?s] by (simp add: total_pages_eq)
  then have "map_option (cell_fonts None) (save ?s) = Some [(''*'', Some 32)]"
    by (simp add: page_ops_def page_slice_def CARDS_PER_PAGE_def)
  with i show ?thesis by simp
qed

text \<open>
  Claim C5, amended. The wildcard marker is the string \<open>*\<close>, and a card is rendered
  in the larger size 32 exactly when its text is \<open>*\<close>, in size 14 otherwise. So in a
  deck of loaded cards followed by the appended markers, which are some number \<open>k\<close>
  of copies of the string \<open>*\<close> (\<open>repeat_Inr\<close>), every appended marker is
  rendered in size 32, and a loaded card is rendered in size 32 exactly when its text is
  \<open>*\<close>.
\<close>

theorem wildcard_font_by_text:
  "cell_fonts font (render_cards s side (loaded @ replicate k ''*'') cell card_in_row [])
     = map (\<lambda>c. (c, Some (if c = ''*'' then 32 else 14))) loaded
       @ replicate k (''*'', Some 32)"
  by (simp add: cell_fonts_render_cards)

end
